theory Spec2Isabelle
  imports Complex_Main "HOL-Library.Sublist"
begin

section \<open>The mini FPS game of \<open>src/block.tsx\<close>\<close>

text \<open>
  The block is one React component tree. A handler of that tree reads two kinds of values:
  \<^item> the current state, which the functional updaters \<open>setGameState(prev => ...)\<close> receive
    as \<open>prev\<close> and which \<open>setHit\<close> overwrites;
  \<^item> the values its closure captured at the latest render: \<open>gameState.ammo\<close> in the guard of
    \<open>shoot\<close>, \<open>hit\<close> in the guard of \<open>handleClick\<close>, \<open>gameState.score\<close> in the completion
    effect, and the list of bullets for which a \<open>Bullet\<close> component is mounted.
  The record \<open>Session\<close> keeps both: \<open>gameState\<close> and \<open>hit\<close> are the current state,
  \<open>rendered\<close> and \<open>renderedHit\<close> are what the closures of the latest render hold. Handlers
  do not render; rendering is an event of its own (\<open>Render\<close> for the block with its scene,
  \<open>RenderEnemy\<close> for one enemy whose own state changed), so any number of handlers may run
  between two renders. The messages handed to \<open>postMessage\<close> are collected in \<open>posted\<close>.

  Numbers: \<open>score\<close>, \<open>ammo\<close> and the bullet ids are JavaScript numbers that only ever hold
  integers; they are \<open>int\<close> here. The coordinates of a bullet's position and direction are
  \<open>real\<close>. The flight of a bullet (the \<open>useFrame\<close> callback of \<open>Bullet\<close>) is arithmetic of
  three.js on scene objects in double precision; it is not modelled, and the outcome of
  its range test comes with the event \<open>Tick\<close>.
\<close>

subsection \<open>\<open>THREE.Vector3\<close>\<close>

datatype Vector3 = Vector3 (vx: real) (vy: real) (vz: real)

definition clone :: "Vector3 \<Rightarrow> Vector3" where
  "clone v = Vector3 (vx v) (vy v) (vz v)"

definition multiplyScalar :: "Vector3 \<Rightarrow> real \<Rightarrow> Vector3" where
  "multiplyScalar v s = Vector3 (vx v * s) (vy v * s) (vz v * s)"

definition divideScalar :: "Vector3 \<Rightarrow> real \<Rightarrow> Vector3" where
  "divideScalar v s = multiplyScalar v (1 / s)"

definition length_v :: "Vector3 \<Rightarrow> real" where
  "length_v v = sqrt (vx v * vx v + vy v * vy v + vz v * vz v)"

text \<open>\<open>normalize\<close> is \<open>this.divideScalar(this.length() || 1)\<close>: the zero vector stays zero.\<close>

definition normalize :: "Vector3 \<Rightarrow> Vector3" where
  "normalize v = divideScalar v (if length_v v = 0 then 1 else length_v v)"

subsection \<open>State\<close>

record Bullet =
  bullet_id :: int
  position :: Vector3
  direction :: Vector3

record GameState =
  score :: int
  ammo :: int
  bullets :: "Bullet list"

datatype Recipient = Window | Parent

record Message =
  msg_type :: string
  blockId :: string
  completed :: bool
  msg_score :: int
  maxScore :: int

record Session =
  gameState :: GameState
  bulletIdCounter :: int
  hit :: "int \<Rightarrow> bool"
  rendered :: GameState
  renderedHit :: "int \<Rightarrow> bool"
  posted :: "(Recipient \<times> Message) list"

text \<open>The five enemies of \<open>GameScene\<close>, with their ids and positions.\<close>

definition enemies :: "(int \<times> Vector3) list" where
  "enemies = [(1, Vector3 5 1 (-10)), (2, Vector3 (-5) 1 (-15)), (3, Vector3 0 2 (-20)),
              (4, Vector3 8 1 (-12)), (5, Vector3 (-8) 1 (-18))]"

text \<open>The state after the first render: \<open>useState\<close> and \<open>useRef\<close> initial values, every
  enemy with \<open>hit = false\<close>, closures holding those values, nothing posted (the completion
  effect runs after the first render too, with score 0).\<close>

definition init :: Session where
  "init = \<lparr>gameState = \<lparr>score = 0, ammo = 30, bullets = []\<rparr>, bulletIdCounter = 0,
           hit = (\<lambda>_. False),
           rendered = \<lparr>score = 0, ammo = 30, bullets = []\<rparr>, renderedHit = (\<lambda>_. False),
           posted = []\<rparr>"

subsection \<open>The handlers of \<open>GameScene\<close>\<close>

definition setGameState :: "(GameState \<Rightarrow> GameState) \<Rightarrow> Session \<Rightarrow> Session" where
  "setGameState f s = s\<lparr>gameState := f (gameState s)\<rparr>"

text \<open>\<open>shoot\<close>. Its guard reads \<open>gameState.ammo\<close> of the latest render; its updaters run on
  the current state. The camera is given by its position and by \<open>forward\<close>, the vector
  \<open>new THREE.Vector3(0, 0, -1).applyQuaternion(camera.quaternion)\<close>.\<close>

definition shoot :: "Vector3 \<Rightarrow> Vector3 \<Rightarrow> Session \<Rightarrow> Session" where
  "shoot cameraPosition forward s =
     (if ammo (rendered s) \<le> 0 then s
      else
        let s1 = setGameState (\<lambda>prev. prev\<lparr>ammo := ammo prev - 1\<rparr>) s;
            newBullet = \<lparr>bullet_id = bulletIdCounter s1,
                         position = clone cameraPosition,
                         direction = normalize forward\<rparr>;
            s2 = s1\<lparr>bulletIdCounter := bulletIdCounter s1 + 1\<rparr>
        in setGameState (\<lambda>prev. prev\<lparr>bullets := bullets prev @ [newBullet]\<rparr>) s2)"

definition removeBullet :: "int \<Rightarrow> Session \<Rightarrow> Session" where
  "removeBullet bulletId =
     setGameState (\<lambda>prev. prev\<lparr>bullets := filter (\<lambda>bullet. bullet_id bullet \<noteq> bulletId) (bullets prev)\<rparr>)"

definition handleEnemyHit :: "int \<Rightarrow> Session \<Rightarrow> Session" where
  "handleEnemyHit enemyId = setGameState (\<lambda>prev. prev\<lparr>score := score prev + 10\<rparr>)"

definition reload :: "Session \<Rightarrow> Session" where
  "reload = setGameState (\<lambda>prev. prev\<lparr>ammo := 30\<rparr>)"

subsection \<open>The \<open>Enemy\<close> component\<close>

text \<open>\<open>handleClick\<close> of the enemy with the given id, with \<open>onHit = handleEnemyHit\<close>. Its
  guard reads the \<open>hit\<close> of the enemy's latest render. The timer it starts fires
  \<open>enemyTimeout\<close> 1000 ms later.\<close>

definition handleClick :: "int \<Rightarrow> Session \<Rightarrow> Session" where
  "handleClick enemyId s =
     (if \<not> renderedHit s enemyId
      then handleEnemyHit enemyId (s\<lparr>hit := (hit s)(enemyId := True)\<rparr>)
      else s)"

definition enemyTimeout :: "int \<Rightarrow> Session \<Rightarrow> Session" where
  "enemyTimeout enemyId s = s\<lparr>hit := (hit s)(enemyId := False)\<rparr>"

subsection \<open>The \<open>Bullet\<close> component\<close>

text \<open>The \<open>useFrame\<close> callback of the bullet mounted with key \<open>k\<close>; a \<open>Bullet\<close> is mounted
  for each bullet of the latest render. \<open>expired\<close> is the outcome of the test
  \<open>position.distanceTo(startPosition) > maxDistance\<close> on the moved mesh; when it holds,
  \<open>onRemove\<close>, which is \<open>removeBullet\<close> of the bullet's id, runs.\<close>

definition tick :: "int \<Rightarrow> bool \<Rightarrow> Session \<Rightarrow> Session" where
  "tick k expired s =
     (if k \<in> set (map bullet_id (bullets (rendered s))) \<and> expired then removeBullet k s else s)"

subsection \<open>Rendering and the completion effect of \<open>Block\<close>\<close>

definition completionMessage :: "int \<Rightarrow> Message" where
  "completionMessage sc =
     \<lparr>msg_type = ''BLOCK_COMPLETION'', blockId = ''mini-fps-game'', completed = True,
      msg_score = sc, maxScore = 50\<rparr>"

definition postMessage :: "Recipient \<Rightarrow> Message \<Rightarrow> Session \<Rightarrow> Session" where
  "postMessage r m s = s\<lparr>posted := posted s @ [(r, m)]\<rparr>"

text \<open>The body of the effect \<open>useEffect(..., [gameState.score])\<close>, on the \<open>gameState\<close> of the
  render it belongs to.\<close>

definition completionEffect :: "Session \<Rightarrow> Session" where
  "completionEffect s =
     (if score (rendered s) \<ge> 50 then
        postMessage Parent (completionMessage (score (rendered s)))
          (postMessage Window (completionMessage (score (rendered s))) s)
      else s)"

text \<open>A render of the block and its scene: every closure takes the current state, and the
  effect runs when its dependency \<open>gameState.score\<close> differs from its value at the previous
  render.\<close>

definition render :: "Session \<Rightarrow> Session" where
  "render s =
     (let s' = s\<lparr>rendered := gameState s, renderedHit := hit s\<rparr>
      in if score (rendered s') \<noteq> score (rendered s) then completionEffect s' else s')"

text \<open>A render of one enemy alone, after its own \<open>setHit\<close>.\<close>

definition renderEnemy :: "int \<Rightarrow> Session \<Rightarrow> Session" where
  "renderEnemy enemyId s = s\<lparr>renderedHit := (renderedHit s)(enemyId := hit s enemyId)\<rparr>"

subsection \<open>Events\<close>

datatype Event =
    Shoot Vector3 Vector3
  | Reload
  | Tick int bool
  | RemoveBullet int
  | Hit int
  | CooldownExpired int
  | Render
  | RenderEnemy int

fun step :: "Event \<Rightarrow> Session \<Rightarrow> Session" where
  "step (Shoot cameraPosition forward) s = shoot cameraPosition forward s"
| "step Reload s = reload s"
| "step (Tick k expired) s = tick k expired s"
| "step (RemoveBullet k) s = removeBullet k s"
| "step (Hit enemyId) s = handleClick enemyId s"
| "step (CooldownExpired enemyId) s = enemyTimeout enemyId s"
| "step Render s = render s"
| "step (RenderEnemy enemyId) s = renderEnemy enemyId s"

fun run :: "Session \<Rightarrow> Event list \<Rightarrow> Session" where
  "run s [] = s"
| "run s (e # es) = run (step e s) es"

subsection \<open>Notions used to state the properties\<close>

text \<open>A click on an enemy is accepted when \<open>handleClick\<close> takes its \<open>if (!hit)\<close> branch.\<close>

definition accepted :: "Event \<Rightarrow> Session \<Rightarrow> bool" where
  "accepted e s = (case e of Hit enemyId \<Rightarrow> \<not> renderedHit s enemyId | _ \<Rightarrow> False)"

fun acceptedHits :: "Session \<Rightarrow> Event list \<Rightarrow> nat" where
  "acceptedHits s [] = 0"
| "acceptedHits s (e # es) = (if accepted e s then 1 else 0) + acceptedHits (step e s) es"

text \<open>Bullet ids are pairwise different and below the counter.\<close>

definition ids_ok :: "Session \<Rightarrow> bool" where
  "ids_ok s =
     (distinct (map bullet_id (bullets (gameState s))) \<and>
      list_all (\<lambda>b. bullet_id b < bulletIdCounter s) (bullets (gameState s)))"

text \<open>The scores of the messages posted to the window, in order.\<close>

definition windowScores :: "(Recipient \<times> Message) list \<Rightarrow> int list" where
  "windowScores ms = map (\<lambda>p. msg_score (snd p)) (filter (\<lambda>p. fst p = Window) ms)"

text \<open>The log that posts, for each of the given scores, the completion message to the window
  and to its parent.\<close>

definition pairs :: "int list \<Rightarrow> (Recipient \<times> Message) list" where
  "pairs scs =
     concat (map (\<lambda>sc. [(Window, completionMessage sc), (Parent, completionMessage sc)]) scs)"

section \<open>Field lemmas\<close>

lemma setGameState_fields [simp]:
  "gameState (setGameState f s) = f (gameState s)"
  "bulletIdCounter (setGameState f s) = bulletIdCounter s"
  "hit (setGameState f s) = hit s"
  "rendered (setGameState f s) = rendered s"
  "renderedHit (setGameState f s) = renderedHit s"
  "posted (setGameState f s) = posted s"
  by (simp_all add: setGameState_def)

lemma completionEffect_fields [simp]:
  "gameState (completionEffect s) = gameState s"
  "bulletIdCounter (completionEffect s) = bulletIdCounter s"
  "hit (completionEffect s) = hit s"
  "rendered (completionEffect s) = rendered s"
  "renderedHit (completionEffect s) = renderedHit s"
  by (simp_all add: completionEffect_def postMessage_def)

lemma render_fields [simp]:
  "gameState (render s) = gameState s"
  "bulletIdCounter (render s) = bulletIdCounter s"
  "hit (render s) = hit s"
  "rendered (render s) = gameState s"
  "renderedHit (render s) = hit s"
  by (simp_all add: render_def Let_def)

lemma clone_id [simp]: "clone v = v"
  by (simp add: clone_def)

lemmas handler_defs = shoot_def Let_def reload_def removeBullet_def handleClick_def
  handleEnemyHit_def enemyTimeout_def tick_def renderEnemy_def

lemma score_step:
  "score (gameState (step e s)) = score (gameState s) + (if accepted e s then 10 else 0)"
  by (cases e) (simp_all add: handler_defs accepted_def)

lemma ammo_step:
  "ammo (gameState (step e s)) =
     (case e of
        Shoot c f \<Rightarrow>
          if ammo (rendered s) \<le> 0 then ammo (gameState s) else ammo (gameState s) - 1
      | Reload \<Rightarrow> 30
      | _ \<Rightarrow> ammo (gameState s))"
  by (cases e) (simp_all add: handler_defs)

lemma posted_step:
  "posted (step e s) = posted s @
     (if e = Render \<and> score (gameState s) \<noteq> score (rendered s) \<and> 50 \<le> score (gameState s)
      then [(Window, completionMessage (score (gameState s))),
            (Parent, completionMessage (score (gameState s)))]
      else [])"
  by (cases e)
    (simp_all add: handler_defs render_def completionEffect_def postMessage_def)

lemma bulletIdCounter_step: "bulletIdCounter s \<le> bulletIdCounter (step e s)"
  by (cases e) (simp_all add: handler_defs)

lemma run_snoc: "run s (es @ [e]) = step e (run s es)"
  by (induction es arbitrary: s) simp_all

lemma run_append: "run s (es @ es') = run (run s es) es'"
  by (induction es arbitrary: s) simp_all

lemma score_run: "score (gameState (run s es)) = score (gameState s) + 10 * int (acceptedHits s es)"
  by (induction es arbitrary: s) (simp_all add: score_step)

lemma score_mono_run: "score (gameState s) \<le> score (gameState (run s es))"
  by (simp add: score_run)

section \<open>Bullet ids\<close>

lemma ids_ok_filter:
  "ids_ok s \<Longrightarrow> bulletIdCounter s' = bulletIdCounter s \<Longrightarrow>
   bullets (gameState s') = filter P (bullets (gameState s)) \<Longrightarrow> ids_ok s'"
  by (simp add: ids_ok_def distinct_map_filter list_all_iff)

lemma ids_ok_same:
  "ids_ok s \<Longrightarrow> bulletIdCounter s' = bulletIdCounter s \<Longrightarrow>
   bullets (gameState s') = bullets (gameState s) \<Longrightarrow> ids_ok s'"
  by (simp add: ids_ok_def)

lemma ids_ok_step: assumes "ids_ok s" shows "ids_ok (step e s)"
proof (cases e)
  case (Shoot c f)
  then show ?thesis using assms
    by (auto simp: ids_ok_def shoot_def Let_def list_all_iff)
next
  case Reload
  then show ?thesis using assms by (simp add: ids_ok_def reload_def)
next
  case (Tick k expired)
  then show ?thesis using assms
    by (auto intro: ids_ok_filter simp: tick_def removeBullet_def)
next
  case (RemoveBullet k)
  then show ?thesis using assms
    by (auto intro: ids_ok_filter simp: removeBullet_def)
next
  case (Hit k)
  then show ?thesis using assms by (simp add: ids_ok_def handleClick_def handleEnemyHit_def)
next
  case (CooldownExpired k)
  then show ?thesis using assms by (simp add: ids_ok_def enemyTimeout_def)
next
  case Render
  then show ?thesis using assms by (simp add: ids_ok_def)
next
  case (RenderEnemy k)
  then show ?thesis using assms by (simp add: ids_ok_def renderEnemy_def)
qed

lemma ids_ok_run: "ids_ok s \<Longrightarrow> ids_ok (run s es)"
  by (induction es arbitrary: s) (simp_all add: ids_ok_step)

lemma ids_ok_init: "ids_ok init"
  by (simp add: ids_ok_def init_def)

lemma bulletIdCounter_run: "bulletIdCounter s \<le> bulletIdCounter (run s es)"
proof (induction es arbitrary: s)
  case Nil
  show ?case by simp
next
  case (Cons e es)
  show ?case using bulletIdCounter_step [of s e] Cons [of "step e s"] by simp
qed

text \<open>The id the counter will assign next is the id of no bullet of any earlier state of the
  session.\<close>

lemma earlier_ids:
  "list_all (\<lambda>b. bullet_id b \<noteq> bulletIdCounter (run init es))
     (bullets (gameState (run init (take n es))))"
proof -
  have "ids_ok (run init (take n es))" by (simp add: ids_ok_run ids_ok_init)
  moreover have "bulletIdCounter (run init (take n es)) \<le> bulletIdCounter (run init es)"
    using bulletIdCounter_run [of "run init (take n es)" "drop n es"]
    by (simp add: run_append [symmetric])
  ultimately show ?thesis
    by (auto simp: ids_ok_def list_all_iff)
qed

section \<open>The message log\<close>

lemma pairs_append: "pairs (xs @ ys) = pairs xs @ pairs ys"
  by (simp add: pairs_def)

lemma windowScores_append: "windowScores (xs @ ys) = windowScores xs @ windowScores ys"
  by (simp add: windowScores_def)

lemma pairs_windowScores_nil: "pairs (windowScores []) = []"
  by (simp add: pairs_def windowScores_def)

lemma pairs_windowScores_pair:
  "pairs (windowScores [(Window, completionMessage sc), (Parent, completionMessage sc)]) =
     [(Window, completionMessage sc), (Parent, completionMessage sc)]"
  by (simp add: pairs_def windowScores_def completionMessage_def)

lemma paired_append:
  assumes "ms = pairs (windowScores ms)" and "ms' = pairs (windowScores ms')"
  shows "ms @ ms' = pairs (windowScores (ms @ ms'))"
proof -
  have "pairs (windowScores (ms @ ms')) = pairs (windowScores ms) @ pairs (windowScores ms')"
    by (simp add: windowScores_append pairs_append)
  also have "\<dots> = ms @ ms'"
    using assms by metis
  finally show ?thesis by (rule sym)
qed

lemma paired_step:
  assumes "posted s = pairs (windowScores (posted s))"
  shows "posted (step e s) = pairs (windowScores (posted (step e s)))"
proof -
  obtain ms' where p: "posted (step e s) = posted s @ ms'"
    and ms': "ms' = pairs (windowScores ms')"
  proof (cases "e = Render \<and> score (gameState s) \<noteq> score (rendered s) \<and> 50 \<le> score (gameState s)")
    case True
    show ?thesis
    proof (rule that)
      show "posted (step e s) = posted s @
          [(Window, completionMessage (score (gameState s))),
           (Parent, completionMessage (score (gameState s)))]"
        using True by (subst posted_step) simp
      show "[(Window, completionMessage (score (gameState s))),
           (Parent, completionMessage (score (gameState s)))] =
          pairs (windowScores [(Window, completionMessage (score (gameState s))),
           (Parent, completionMessage (score (gameState s)))])"
        by (rule pairs_windowScores_pair [symmetric])
    qed
  next
    case False
    show ?thesis
    proof (rule that)
      show "posted (step e s) = posted s @ []"
        using False by (subst posted_step) auto
      show "[] = pairs (windowScores [])"
        by (rule pairs_windowScores_nil [symmetric])
    qed
  qed
  show ?thesis
    unfolding p by (rule paired_append [OF assms ms'])
qed

lemma paired_run:
  "posted s = pairs (windowScores (posted s)) \<Longrightarrow>
   posted (run s es) = pairs (windowScores (posted (run s es)))"
proof (induction es arbitrary: s)
  case Nil
  then show ?case by (simp only: run.simps)
next
  case (Cons e es)
  have "posted (step e s) = pairs (windowScores (posted (step e s)))"
    using Cons.prems by (rule paired_step)
  then have "posted (run (step e s) es) = pairs (windowScores (posted (run (step e s) es)))"
    by (rule Cons.IH)
  then show ?case by (simp only: run.simps)
qed

lemma paired_init: "posted init = pairs (windowScores (posted init))"
  by (simp add: init_def pairs_def windowScores_def)

lemma silent_below_50:
  "posted s = [] \<Longrightarrow> score (gameState (run s es)) < 50 \<Longrightarrow> posted (run s es) = []"
proof (induction es arbitrary: s)
  case Nil
  then show ?case by simp
next
  case (Cons e es)
  have "score (gameState s) \<le> score (gameState (step e s))"
    by (simp add: score_step)
  also have "\<dots> \<le> score (gameState (run (step e s) es))"
    by (rule score_mono_run)
  finally have "score (gameState s) < 50" using Cons.prems(2) by simp
  then have "posted (step e s) = []" using Cons.prems(1) by (simp add: posted_step)
  then show ?case using Cons.IH [of "step e s"] Cons.prems(2) by simp
qed

section \<open>The completion notification\<close>

lemmas eval_defs = init_def render_def renderEnemy_def handleClick_def handleEnemyHit_def
  setGameState_def enemyTimeout_def completionEffect_def postMessage_def Let_def

text \<open>
  Claim C1, as amended. The completion effect has no flag that remembers an earlier emission.
  A render of the block posts the notification exactly when score differs from the score of
  the previous render and is at least 50; no other event posts anything. So the notification
  is emitted at the first render that sees a score of at least 50, and again at every later
  render that sees a changed score. As long as score is below 50, nothing has been posted.
\<close>

theorem completion_every_change:
  "posted (step e s) =
     posted s @
       (if e = Render \<and> score (gameState s) \<noteq> score (rendered s) \<and> 50 \<le> score (gameState s)
        then [(Window, completionMessage (score (gameState s))),
              (Parent, completionMessage (score (gameState s)))]
        else []) \<and>
   (score (gameState (run init es)) < 50 \<longrightarrow> posted (run init es) = [])"
proof -
  have "posted init = []" by (simp add: init_def)
  then show ?thesis
    by (simp add: posted_step silent_below_50)
qed

text \<open>The render after the fifth hit, and a session with score 10.\<close>

theorem completion_every_change_witness:
  "score (gameState (run init [Hit 1, Render, Hit 2, Render, Hit 3, Render, Hit 4, Render, Hit 5])) = 50 \<and>
   score (rendered (run init [Hit 1, Render, Hit 2, Render, Hit 3, Render, Hit 4, Render, Hit 5])) = 40 \<and>
   posted (step Render
     (run init [Hit 1, Render, Hit 2, Render, Hit 3, Render, Hit 4, Render, Hit 5])) =
     [(Window, completionMessage 50), (Parent, completionMessage 50)] \<and>
   score (gameState (run init [Hit 1, Render])) < 50 \<and>
   posted (run init [Hit 1, Render]) = []"
proof -
  let ?s = "run init [Hit 1, Render, Hit 2, Render, Hit 3, Render, Hit 4, Render, Hit 5]"
  have a: "score (gameState ?s) = 50" "score (rendered ?s) = 40" "posted ?s = []"
    by (simp_all add: eval_defs)
  have b: "score (gameState (run init [Hit 1, Render])) < 50"
    by (simp add: eval_defs)
  have c: "posted (step Render ?s) = [(Window, completionMessage 50), (Parent, completionMessage 50)]"
    using completion_every_change [of Render ?s "[]"] unfolding a by simp
  have d: "posted (run init [Hit 1, Render]) = []"
    using completion_every_change [of Render init "[Hit 1, Render]"] b by blast
  show ?thesis using a b c d by blast
qed

text \<open>
  Claim C1 as stated fails. Hits on the enemies 1 to 4, each followed by a render, give
  score 40 and no message; the hit on enemy 5 and its render give score 50 and the
  notification; after the cooldown of enemy 1 a sixth hit and its render give score 60 and
  the notification a second time.
\<close>

theorem completion_twice:
  "map fst enemies = [1, 2, 3, 4, 5] \<and>
   score (gameState (run init [Hit 1, Render, Hit 2, Render, Hit 3, Render, Hit 4, Render])) = 40 \<and>
   posted (run init [Hit 1, Render, Hit 2, Render, Hit 3, Render, Hit 4, Render]) = [] \<and>
   score (gameState (run init
     [Hit 1, Render, Hit 2, Render, Hit 3, Render, Hit 4, Render, Hit 5, Render])) = 50 \<and>
   posted (run init
     [Hit 1, Render, Hit 2, Render, Hit 3, Render, Hit 4, Render, Hit 5, Render]) =
     [(Window, completionMessage 50), (Parent, completionMessage 50)] \<and>
   score (gameState (run init
     [Hit 1, Render, Hit 2, Render, Hit 3, Render, Hit 4, Render, Hit 5, Render,
      CooldownExpired 1, RenderEnemy 1, Hit 1, Render])) = 60 \<and>
   posted (run init
     [Hit 1, Render, Hit 2, Render, Hit 3, Render, Hit 4, Render, Hit 5, Render,
      CooldownExpired 1, RenderEnemy 1, Hit 1, Render]) =
     [(Window, completionMessage 50), (Parent, completionMessage 50),
      (Window, completionMessage 60), (Parent, completionMessage 60)] \<and>
   posted (run init
     [Hit 1, Render, Hit 2, Render, Hit 3, Render, Hit 4, Render, Hit 5, Render,
      CooldownExpired 1, RenderEnemy 1, Hit 1, Render]) \<noteq>
   posted (run init
     [Hit 1, Render, Hit 2, Render, Hit 3, Render, Hit 4, Render, Hit 5, Render])"
  by (simp add: eval_defs enemies_def)

text \<open>
  Claim C7. Every step either posts nothing or posts one message of the shape
  \<open>{type: "BLOCK_COMPLETION", blockId: "mini-fps-game", completed: true, score, maxScore: 50}\<close>
  with the current score, once to the window and once to its parent; the whole log of a
  session consists of such pairs, one pair for each score posted to the window.
\<close>

theorem completion_message_shape:
  "(posted (step e s) = posted s \<or>
    posted (step e s) = posted s @
      [(Window, \<lparr>msg_type = ''BLOCK_COMPLETION'', blockId = ''mini-fps-game'', completed = True,
                 msg_score = score (gameState (step e s)), maxScore = 50\<rparr>),
       (Parent, \<lparr>msg_type = ''BLOCK_COMPLETION'', blockId = ''mini-fps-game'', completed = True,
                 msg_score = score (gameState (step e s)), maxScore = 50\<rparr>)]) \<and>
   posted (run init es) =
     concat (map (\<lambda>sc.
        [(Window, \<lparr>msg_type = ''BLOCK_COMPLETION'', blockId = ''mini-fps-game'', completed = True,
                   msg_score = sc, maxScore = 50\<rparr>),
         (Parent, \<lparr>msg_type = ''BLOCK_COMPLETION'', blockId = ''mini-fps-game'', completed = True,
                   msg_score = sc, maxScore = 50\<rparr>)])
        (windowScores (posted (run init es))))"
proof -
  have "posted (run init es) = pairs (windowScores (posted (run init es)))"
    using paired_init by (rule paired_run)
  then have log: "posted (run init es) =
     concat (map (\<lambda>sc.
        [(Window, \<lparr>msg_type = ''BLOCK_COMPLETION'', blockId = ''mini-fps-game'', completed = True,
                   msg_score = sc, maxScore = 50\<rparr>),
         (Parent, \<lparr>msg_type = ''BLOCK_COMPLETION'', blockId = ''mini-fps-game'', completed = True,
                   msg_score = sc, maxScore = 50\<rparr>)])
        (windowScores (posted (run init es))))"
    unfolding pairs_def completionMessage_def .
  have "score (gameState (step e s)) = score (gameState s)" if "e = Render"
    using that by simp
  then have "posted (step e s) = posted s \<or>
    posted (step e s) = posted s @
      [(Window, \<lparr>msg_type = ''BLOCK_COMPLETION'', blockId = ''mini-fps-game'', completed = True,
                 msg_score = score (gameState (step e s)), maxScore = 50\<rparr>),
       (Parent, \<lparr>msg_type = ''BLOCK_COMPLETION'', blockId = ''mini-fps-game'', completed = True,
                 msg_score = score (gameState (step e s)), maxScore = 50\<rparr>)]"
    by (subst (1 2) posted_step) (auto simp: completionMessage_def)
  then show ?thesis using log by blast
qed

section \<open>Ammo and score\<close>

lemma ammo_upper_step: "ammo (gameState s) \<le> 30 \<Longrightarrow> ammo (gameState (step e s)) \<le> 30"
  by (simp add: ammo_step split: Event.splits)

lemma ammo_upper_run: "ammo (gameState s) \<le> 30 \<Longrightarrow> ammo (gameState (run s es)) \<le> 30"
  by (induction es arbitrary: s) (simp_all add: ammo_upper_step)

text \<open>The part of the bounds that holds in every session: ammo never exceeds 30, score is
  never negative and never decreases.\<close>

lemma ammo_upper_score_bounds:
  "ammo (gameState (run init es)) \<le> 30 \<and>
   0 \<le> score (gameState (run init es)) \<and>
   score (gameState (run init es)) \<le> score (gameState (step e (run init es))) \<and>
   score (gameState (run init es)) \<le> score (gameState (run init (es @ es')))"
proof -
  have "ammo (gameState (run init es)) \<le> 30"
    by (rule ammo_upper_run) (simp add: init_def)
  moreover have "0 \<le> score (gameState (run init es))"
    by (simp add: score_run) (simp add: init_def)
  ultimately show ?thesis
    by (simp add: score_step run_append score_mono_run)
qed

text \<open>A shot whose closure holds the current ammo keeps ammo at or above 0.\<close>

lemma shoot_fresh_closure:
  "ammo (rendered s) = ammo (gameState s) \<Longrightarrow> 0 \<le> ammo (gameState s) \<Longrightarrow>
   0 \<le> ammo (gameState (shoot c f s))"
  by (simp add: shoot_def Let_def)

text \<open>Shots that are each followed by a render take 1 from ammo each.\<close>

lemma shots_rendered:
  "ammo (rendered s) = ammo (gameState s) \<Longrightarrow> int n \<le> ammo (gameState s) \<Longrightarrow>
   ammo (gameState (run s (concat (replicate n [Shoot c f, Render])))) = ammo (gameState s) - int n \<and>
   ammo (rendered (run s (concat (replicate n [Shoot c f, Render])))) = ammo (gameState s) - int n"
proof (induction n arbitrary: s)
  case 0
  then show ?case by simp
next
  case (Suc n)
  let ?s' = "step Render (step (Shoot c f) s)"
  have a: "ammo (gameState ?s') = ammo (gameState s) - 1"
    using Suc.prems by (simp add: shoot_def Let_def)
  have b: "ammo (rendered ?s') = ammo (gameState ?s')"
    by simp
  have c: "int n \<le> ammo (gameState ?s')"
    using Suc.prems(2) a by simp
  from Suc.IH [OF b c] a show ?case by simp
qed

text \<open>
  Claim C2 at a state the code reaches. Twenty-nine shots, each followed by a render, leave
  ammo 1 in the state and in the closure of \<open>shoot\<close>. Three more clicks handled before the
  next render all pass the guard, which reads the closure, and each updater takes 1 from
  the current ammo: ammo is -2.
\<close>

theorem ammo_below_zero:
  "ammo (gameState (run init
      (concat (replicate 29 [Shoot (Vector3 0 1 0) (Vector3 0 0 (-1)), Render])))) = 1 \<and>
   ammo (rendered (run init
      (concat (replicate 29 [Shoot (Vector3 0 1 0) (Vector3 0 0 (-1)), Render])))) = 1 \<and>
   ammo (gameState (run init
      (concat (replicate 29 [Shoot (Vector3 0 1 0) (Vector3 0 0 (-1)), Render]) @
       [Shoot (Vector3 0 1 0) (Vector3 0 0 (-1)),
        Shoot (Vector3 0 1 0) (Vector3 0 0 (-1)),
        Shoot (Vector3 0 1 0) (Vector3 0 0 (-1))]))) = - 2"
proof -
  let ?c = "Vector3 0 1 0" and ?f = "Vector3 0 0 (-1)"
  let ?r = "run init (concat (replicate 29 [Shoot ?c ?f, Render]))"
  have "ammo (rendered init) = ammo (gameState init)" "int 29 \<le> ammo (gameState init)"
    "ammo (gameState init) = 30"
    by (simp_all add: init_def)
  from shots_rendered [OF this(1,2), of ?c ?f] this(3)
  have r: "ammo (gameState ?r) = 1" "ammo (rendered ?r) = 1"
    by simp_all
  have "ammo (gameState (run ?r [Shoot ?c ?f, Shoot ?c ?f, Shoot ?c ?f])) = - 2"
    using r by (simp add: shoot_def Let_def)
  then show ?thesis using r by (simp only: run_append)
qed

text \<open>
  Claim C9. In every state reached from the initial state, score is a multiple of 10 and is
  10 times the number of accepted hits so far.
\<close>

theorem score_counts_accepted_hits:
  "score (gameState (run init es)) = 10 * int (acceptedHits init es) \<and>
   10 dvd score (gameState (run init es))"
  by (simp add: score_run) (simp add: init_def)

section \<open>Shooting\<close>

text \<open>What \<open>shoot\<close> does when its guard lets it pass, and when it does not.\<close>

lemma shoot_passes:
  "0 < ammo (rendered s) \<Longrightarrow>
   shoot c f s =
     s\<lparr>gameState := (gameState s)
          \<lparr>ammo := ammo (gameState s) - 1,
           bullets := bullets (gameState s) @
             [\<lparr>bullet_id = bulletIdCounter s, position = c, direction = normalize f\<rparr>]\<rparr>,
       bulletIdCounter := bulletIdCounter s + 1\<rparr>"
  by (simp add: shoot_def Let_def setGameState_def)

lemma shoot_blocked: "ammo (rendered s) \<le> 0 \<Longrightarrow> shoot c f s = s"
  by (simp add: shoot_def)

text \<open>
  Claim C3 at two states the code reaches. After twenty-nine rendered shots and one more
  click, ammo is 0 while the closure of \<open>shoot\<close> still holds 1: the next click fires a bullet
  and leaves ammo -1. After thirty rendered shots and a reload, ammo is 30 while the closure
  holds 0: the next click does nothing.
\<close>

theorem shoot_stale_closure:
  "ammo (gameState (run init
      (concat (replicate 29 [Shoot (Vector3 0 1 0) (Vector3 0 0 (-1)), Render]) @
       [Shoot (Vector3 0 1 0) (Vector3 0 0 (-1))]))) = 0 \<and>
   ammo (gameState (shoot (Vector3 0 1 0) (Vector3 0 0 (-1)) (run init
      (concat (replicate 29 [Shoot (Vector3 0 1 0) (Vector3 0 0 (-1)), Render]) @
       [Shoot (Vector3 0 1 0) (Vector3 0 0 (-1))])))) = - 1 \<and>
   length (bullets (gameState (shoot (Vector3 0 1 0) (Vector3 0 0 (-1)) (run init
      (concat (replicate 29 [Shoot (Vector3 0 1 0) (Vector3 0 0 (-1)), Render]) @
       [Shoot (Vector3 0 1 0) (Vector3 0 0 (-1))]))))) =
     Suc (length (bullets (gameState (run init
      (concat (replicate 29 [Shoot (Vector3 0 1 0) (Vector3 0 0 (-1)), Render]) @
       [Shoot (Vector3 0 1 0) (Vector3 0 0 (-1))]))))) \<and>
   ammo (gameState (run init
      (concat (replicate 30 [Shoot (Vector3 0 1 0) (Vector3 0 0 (-1)), Render]) @ [Reload]))) = 30 \<and>
   shoot (Vector3 0 1 0) (Vector3 0 0 (-1)) (run init
      (concat (replicate 30 [Shoot (Vector3 0 1 0) (Vector3 0 0 (-1)), Render]) @ [Reload])) =
     run init
      (concat (replicate 30 [Shoot (Vector3 0 1 0) (Vector3 0 0 (-1)), Render]) @ [Reload])"
proof -
  let ?c = "Vector3 0 1 0" and ?f = "Vector3 0 0 (-1)"
  let ?r = "run init (concat (replicate 29 [Shoot ?c ?f, Render]))"
  let ?q = "run init (concat (replicate 30 [Shoot ?c ?f, Render]))"
  have i: "ammo (rendered init) = ammo (gameState init)" "ammo (gameState init) = 30"
    by (simp_all add: init_def)
  have r: "ammo (gameState ?r) = 1" "ammo (rendered ?r) = 1"
    using shots_rendered [OF i(1), of 29 ?c ?f] i(2) by simp_all
  have q: "ammo (rendered ?q) = 0"
    using shots_rendered [OF i(1), of 30 ?c ?f] i(2) by simp
  let ?r0 = "run ?r [Shoot ?c ?f]"
  have r0: "ammo (gameState ?r0) = 0" "ammo (rendered ?r0) = 1"
    using r by (simp_all add: shoot_def Let_def)
  have s0: "ammo (gameState (shoot ?c ?f ?r0)) = - 1"
    "length (bullets (gameState (shoot ?c ?f ?r0))) = Suc (length (bullets (gameState ?r0)))"
    using r0 by (simp_all add: shoot_passes)
  let ?r1 = "run ?q [Reload]"
  have r1: "ammo (gameState ?r1) = 30" "ammo (rendered ?r1) = 0"
    using q by (simp_all add: reload_def)
  have s1: "shoot ?c ?f ?r1 = ?r1"
    using r1 by (simp add: shoot_blocked del: run.simps)
  show ?thesis
    using r0 s0 r1 s1 by (simp only: run_append)
qed

section \<open>Hits and cooldown\<close>

text \<open>A click on an enemy whose closure holds its current flag.\<close>

lemma handleClick_fresh_closure:
  "renderedHit s t = hit s t \<Longrightarrow>
   (\<not> hit s t \<longrightarrow>
      accepted (Hit t) s \<and>
      score (gameState (step (Hit t) s)) = score (gameState s) + 10 \<and>
      hit (step (Hit t) s) t) \<and>
   (hit s t \<longrightarrow> \<not> accepted (Hit t) s \<and> step (Hit t) s = s)"
  by (simp add: accepted_def handleClick_def handleEnemyHit_def)

text \<open>
  Claim C4 at two states the code reaches. After a click on enemy 1 its flag is true, but the
  closure of \<open>handleClick\<close> holds the flag of the latest render: a second click before the
  enemy renders is accepted and score is 20. After the cooldown has reset the flag, a click
  before the enemy renders is not accepted and score stays 10.
\<close>

theorem double_click_accepted:
  "hit (run init [Hit 1]) 1 \<and>
   score (gameState (run init [Hit 1])) = 10 \<and>
   accepted (Hit 1) (run init [Hit 1]) \<and>
   score (gameState (run init [Hit 1, Hit 1])) = 20 \<and>
   \<not> hit (run init [Hit 1, RenderEnemy 1, CooldownExpired 1]) 1 \<and>
   \<not> accepted (Hit 1) (run init [Hit 1, RenderEnemy 1, CooldownExpired 1]) \<and>
   score (gameState (run init [Hit 1, RenderEnemy 1, CooldownExpired 1, Hit 1])) = 10"
  by (simp add: eval_defs accepted_def)

section \<open>Reloading\<close>

text \<open>
  Claim C6. \<open>reload\<close> sets ammo to exactly 30 whatever it was, and changes neither score,
  bullets, the id counter, the enemies' flags, the closures nor the message log; it has no
  failure branch.
\<close>

theorem reload_spec:
  "reload s = s\<lparr>gameState := (gameState s)\<lparr>ammo := 30\<rparr>\<rparr> \<and>
   ammo (gameState (step Reload s)) = 30 \<and>
   score (gameState (step Reload s)) = score (gameState s) \<and>
   bullets (gameState (step Reload s)) = bullets (gameState s) \<and>
   bulletIdCounter (step Reload s) = bulletIdCounter s \<and>
   hit (step Reload s) = hit s \<and>
   posted (step Reload s) = posted s \<and>
   rendered (step Reload s) = rendered s \<and>
   renderedHit (step Reload s) = renderedHit s \<and>
   step Reload (run init es) = (run init es)\<lparr>gameState := (gameState (run init es))\<lparr>ammo := 30\<rparr>\<rparr>"
  by (simp add: reload_def setGameState_def)

section \<open>Removing bullets\<close>

text \<open>
  Claim C8. \<open>removeBullet\<close> keeps exactly the bullets whose id differs from the given one, so
  no bullet with that id is left; when no bullet has the id the state is returned unchanged,
  and removing the same id twice gives the same state as removing it once.
\<close>

theorem removeBullet_spec:
  "bullets (gameState (removeBullet k s)) = filter (\<lambda>b. bullet_id b \<noteq> k) (bullets (gameState s)) \<and>
   k \<notin> bullet_id ` set (bullets (gameState (removeBullet k s))) \<and>
   (k \<notin> bullet_id ` set (bullets (gameState s)) \<longrightarrow> removeBullet k s = s) \<and>
   removeBullet k (removeBullet k s) = removeBullet k s \<and>
   (k \<notin> bullet_id ` set (bullets (gameState (run init es))) \<longrightarrow>
      step (RemoveBullet k) (run init es) = run init es) \<and>
   step (RemoveBullet k) (step (RemoveBullet k) (run init es)) = step (RemoveBullet k) (run init es)"
proof -
  have absent: "removeBullet k s' = s'" if "k \<notin> bullet_id ` set (bullets (gameState s'))" for s'
  proof -
    have "filter (\<lambda>b. bullet_id b \<noteq> k) (bullets (gameState s')) = bullets (gameState s')"
      using that by (auto simp: filter_id_conv)
    then show ?thesis by (simp add: removeBullet_def setGameState_def)
  qed
  have gone: "k \<notin> bullet_id ` set (bullets (gameState (removeBullet k s')))" for s'
    by (auto simp: removeBullet_def)
  show ?thesis
    using absent [of s] gone [of s] absent [OF gone [of s]]
      absent [of "run init es"] absent [OF gone [of "run init es"]]
    by (simp add: removeBullet_def)
qed

text \<open>Removing id 0, and the absent id 7, after two shots.\<close>

theorem removeBullet_spec_witness:
  "bullets (gameState (removeBullet 0
      (run init [Shoot (Vector3 0 1 0) (Vector3 0 0 (-1)), Shoot (Vector3 0 1 0) (Vector3 0 0 (-1))]))) =
     [\<lparr>bullet_id = 1, position = Vector3 0 1 0, direction = Vector3 0 0 (-1)\<rparr>] \<and>
   7 \<notin> bullet_id ` set (bullets (gameState
      (run init [Shoot (Vector3 0 1 0) (Vector3 0 0 (-1)), Shoot (Vector3 0 1 0) (Vector3 0 0 (-1))]))) \<and>
   removeBullet 7
      (run init [Shoot (Vector3 0 1 0) (Vector3 0 0 (-1)), Shoot (Vector3 0 1 0) (Vector3 0 0 (-1))]) =
     run init [Shoot (Vector3 0 1 0) (Vector3 0 0 (-1)), Shoot (Vector3 0 1 0) (Vector3 0 0 (-1))] \<and>
   step (RemoveBullet 7)
      (run init [Shoot (Vector3 0 1 0) (Vector3 0 0 (-1)), Shoot (Vector3 0 1 0) (Vector3 0 0 (-1))]) =
     run init [Shoot (Vector3 0 1 0) (Vector3 0 0 (-1)), Shoot (Vector3 0 1 0) (Vector3 0 0 (-1))]"
proof -
  let ?c = "Vector3 0 1 0" and ?f = "Vector3 0 0 (-1)"
  let ?r = "run init [Shoot ?c ?f, Shoot ?c ?f]"
  have r: "bullets (gameState ?r) =
     [\<lparr>bullet_id = 0, position = ?c, direction = ?f\<rparr>, \<lparr>bullet_id = 1, position = ?c, direction = ?f\<rparr>]"
    by (simp add: eval_defs shoot_def normalize_def length_v_def divideScalar_def multiplyScalar_def)
  have a: "7 \<notin> bullet_id ` set (bullets (gameState ?r))"
    unfolding r by simp
  show ?thesis
    using removeBullet_spec [of 0 ?r "[]"] removeBullet_spec [of 7 ?r "[Shoot ?c ?f, Shoot ?c ?f]"] a
    unfolding r by (simp del: run.simps)
qed

text \<open>A frame of a mounted bullet whose range test succeeds removes the bullet; any other
  frame changes nothing.\<close>

lemma tick_removes:
  "k \<in> set (map bullet_id (bullets (rendered s))) \<Longrightarrow>
   step (Tick k True) s = removeBullet k s"
  by (simp add: tick_def)

lemma tick_keeps:
  "k \<notin> set (map bullet_id (bullets (rendered s))) \<or> \<not> expired \<Longrightarrow> step (Tick k expired) s = s"
  by (auto simp: tick_def)

section \<open>Frame conditions\<close>

text \<open>
  Claim C10. Shooting does not change score; a click on an enemy changes neither ammo nor
  the bullets; removing a bullet changes neither score nor ammo and keeps the remaining
  bullets in their order.
\<close>

theorem frame_effects:
  "score (gameState (step (Shoot c f) s)) = score (gameState s) \<and>
   ammo (gameState (step (Hit t) s)) = ammo (gameState s) \<and>
   bullets (gameState (step (Hit t) s)) = bullets (gameState s) \<and>
   score (gameState (step (RemoveBullet k) s)) = score (gameState s) \<and>
   ammo (gameState (step (RemoveBullet k) s)) = ammo (gameState s) \<and>
   bullets (gameState (step (RemoveBullet k) s)) =
     filter (\<lambda>b. bullet_id b \<noteq> k) (bullets (gameState s)) \<and>
   subseq (bullets (gameState (step (RemoveBullet k) s))) (bullets (gameState s))"
  by (simp add: shoot_def Let_def handleClick_def handleEnemyHit_def removeBullet_def)

end
